theory Spec2Isabelle
  imports Main
begin

section \<open>Python values, errors and string operations\<close>

text \<open>
  The repository holds two scripts that implement the same fetch, dedupe and append
  pipeline over one CSV file: \<^verbatim>\<open>angew_scaper.py\<close> (functions
  \<^verbatim>\<open>find_open_access_angew_papers_from\<close>, \<^verbatim>\<open>get_abstract_from_europepmc\<close>,
  \<^verbatim>\<open>save_results_to_csv\<close>) and \<^verbatim>\<open>angew_scraper.py\<close> (functions
  \<^verbatim>\<open>get_crossref_data\<close>, \<^verbatim>\<open>load_existing_dois\<close>, \<^verbatim>\<open>append_to_csv\<close>,
  \<^verbatim>\<open>main\<close>). Both are embedded below, function by function.

  An exception of the source is a value \<open>Inl e\<close> of the result type; a Python string is
  a \<open>string\<close> whose characters are code points below 256.
\<close>

datatype py_error =
    RequestException
  | HTTPError nat
  | JSONDecodeError
  | IndexError
  | KeyError
  | CsvError

text \<open>\<^verbatim>\<open>xs[0]\<close>: IndexError on the empty list.\<close>

definition first_elem :: "'a list \<Rightarrow> py_error + 'a" where
  "first_elem xs = (case xs of [] \<Rightarrow> Inl IndexError | x # _ \<Rightarrow> Inr x)"

text \<open>\<^verbatim>\<open>d.get(key, default)\<close> on a key that may be absent.\<close>

definition get_default :: "'a option \<Rightarrow> 'a \<Rightarrow> 'a" where
  "get_default v d = (case v of None \<Rightarrow> d | Some x \<Rightarrow> x)"

text \<open>\<^verbatim>\<open>str.isspace\<close> on one code point below 256.\<close>

definition py_isspace :: "char \<Rightarrow> bool" where
  "py_isspace c = (of_char c \<in> {9, 10, 11, 12, 13, 28, 29, 30, 31, 32, 133, 160 :: nat})"

text \<open>\<^verbatim>\<open>s.strip()\<close>\<close>

definition py_strip :: "string \<Rightarrow> string" where
  "py_strip s = rev (dropWhile py_isspace (rev (dropWhile py_isspace s)))"

text \<open>
  \<^verbatim>\<open>s.replace(old, new)\<close>: every non-overlapping occurrence, leftmost first; with an
  empty \<open>old\<close>, \<open>new\<close> is put before every character and at the end.
\<close>

function py_replace :: "string \<Rightarrow> string \<Rightarrow> string \<Rightarrow> string" where
  "py_replace old new s =
     (if old = [] then new @ concat (map (\<lambda>c. c # new) s)
      else if s = [] then []
      else if take (length old) s = old
        then new @ py_replace old new (drop (length old) s)
        else hd s # py_replace old new (tl s))"
  by pat_completeness auto
termination
  by (relation "measure (\<lambda>(old, new, s). length s)") auto

declare py_replace.simps [simp del]

text \<open>\<^verbatim>\<open>sep.join(parts)\<close>\<close>

fun py_join :: "string \<Rightarrow> string list \<Rightarrow> string" where
  "py_join sep [] = []"
| "py_join sep [x] = x"
| "py_join sep (x # y # ys) = x @ sep @ py_join sep (y # ys)"

text \<open>\<^verbatim>\<open>str(n)\<close> for an integer: decimal digits, a minus sign when negative.\<close>

function str_nat :: "nat \<Rightarrow> string" where
  "str_nat n =
     (if n < 10 then [''0123456789'' ! n]
      else str_nat (n div 10) @ [''0123456789'' ! (n mod 10)])"
  by pat_completeness auto
termination
  by (relation "measure id") auto

declare str_nat.simps [simp del]

definition str_int :: "int \<Rightarrow> string" where
  "str_int i = (if i < 0 then CHR ''-'' # str_nat (nat (- i)) else str_nat (nat i))"

section \<open>The outside world\<close>

text \<open>
  An HTTP GET either fails on the network (\<^verbatim>\<open>requests\<close> raises a RequestException) or
  answers with a status code and a body; the body is \<open>None\<close> when it is not JSON
  (\<^verbatim>\<open>response.json()\<close> raises). \<^verbatim>\<open>raise_for_status\<close> raises for the codes 400 to
  599, and \<^verbatim>\<open>response.ok\<close> is its negation. A body that is JSON has the shape the
  service documents: objects where the scripts call \<^verbatim>\<open>.get\<close>, lists where they index
  or iterate, strings for titles, identifiers, links and abstracts.
\<close>

datatype 'a http_response = ConnectionFailed | Response nat "'a option"

definition is_error_status :: "nat \<Rightarrow> bool" where
  "is_error_status st = (400 \<le> st \<and> st < 600)"

text \<open>
  A Crossref work item, with the fields the scripts read. Every key may be absent
  (\<open>None\<close>), as the \<^verbatim>\<open>.get\<close> calls with defaults of the source allow; a date part is
  an integer or \<^verbatim>\<open>null\<close>.
\<close>

record license_info =
  license_URL :: "string option"

record issued_info =
  date_parts :: "int option list list option"

record author_info =
  family :: "string option"

record raw_item =
  raw_title :: "string list option"
  raw_DOI :: "string option"
  raw_URL :: "string option"
  raw_license :: "license_info list option"
  raw_issued :: "issued_info option"
  raw_abstract :: "string option"
  raw_author :: "author_info list option"

record crossref_message =
  items :: "raw_item list option"

record crossref_body =
  message :: "crossref_message option"

text \<open>The Europe PMC search answer.\<close>

record epmc_result =
  abstractText :: "string option"

record epmc_resultList =
  result :: "epmc_result list option"

record epmc_body =
  resultList :: "epmc_resultList option"

text \<open>
  The world answers the two GET requests as a function of their query parameters, and
  gives the formatted local time of the k-th row written in a run.
\<close>

record world =
  crossref_get :: "(string \<times> string) list \<Rightarrow> crossref_body http_response"
  europepmc_get :: "(string \<times> string) list \<Rightarrow> epmc_body http_response"
  now :: "nat \<Rightarrow> string"

section \<open>The CSV file\<close>

text \<open>
  The file is its text, the sequence of its characters; \<open>None\<close> is a path that does not
  exist. Both scripts use the path \<^verbatim>\<open>angew_open_access_papers.csv\<close> and open it with
  \<^verbatim>\<open>newline=""\<close> and the encoding UTF-8, so the text is read and written as it is.
  Opened with mode \<^verbatim>\<open>"a"\<close>, a file only grows at its end: what is written follows the
  last character, whether or not the last line is terminated. Opening, reading and
  writing the file are taken to succeed. A character is a value of the type \<open>char\<close>;
  the reader and the writer treat four of them specially, the comma, the quote
  character, CR and LF.
\<close>

type_synonym csv_file = string

definition QUOTE :: char where
  "QUOTE = CHR 0x22"

definition COMMA :: char where
  "COMMA = CHR 0x2C"

definition CR :: char where
  "CR = CHR 0x0D"

definition LF :: char where
  "LF = CHR 0x0A"

subsection \<open>csv.writer\<close>

text \<open>
  The writer of the dialect \<^verbatim>\<open>excel\<close> with \<^verbatim>\<open>QUOTE_MINIMAL\<close>: a field is quoted when it
  holds the delimiter, the quote character or a character of the line terminator; inside
  the quotes a quote character is written twice. The fields are joined with commas and
  followed by CR LF; a row of one empty field is written as two quote characters.
\<close>

definition needs_quotes :: "string \<Rightarrow> bool" where
  "needs_quotes f = (\<exists>c \<in> set f. c = COMMA \<or> c = QUOTE \<or> c = CR \<or> c = LF)"

definition esc :: "string \<Rightarrow> string" where
  "esc f = concat (map (\<lambda>c. if c = QUOTE then [QUOTE, QUOTE] else [c]) f)"

definition quote_field :: "string \<Rightarrow> string" where
  "quote_field f = QUOTE # esc f @ [QUOTE]"

definition csv_field :: "string \<Rightarrow> string" where
  "csv_field f = (if needs_quotes f then quote_field f else f)"

definition csv_writerow :: "string list \<Rightarrow> string" where
  "csv_writerow row =
     (if row = [[]] then quote_field [] else py_join [COMMA] (map csv_field row)) @ [CR, LF]"

text \<open>The text of a sequence of rows, each written with \<^verbatim>\<open>writerow\<close>.\<close>

definition csv_text :: "string list list \<Rightarrow> string" where
  "csv_text rows = concat (map csv_writerow rows)"

subsection \<open>csv.reader\<close>

text \<open>
  The reader of the same dialect, the state machine of the \<^verbatim>\<open>_csv\<close> module: the
  states an escape character leads to are left out, the dialect has none. A field holds
  at most \<^verbatim>\<open>csv.field_size_limit()\<close> characters; one more raises \<^verbatim>\<open>_csv.Error\<close>.
\<close>

definition field_size_limit :: nat where
  "field_size_limit = 131072"

datatype parser_state =
    START_RECORD
  | START_FIELD
  | IN_FIELD
  | IN_QUOTED_FIELD
  | QUOTE_IN_QUOTED_FIELD
  | EAT_CRNL

record reader =
  rd_state :: parser_state
  rd_fields :: "string list"
  rd_field :: string

definition parse_reset :: reader where
  "parse_reset = \<lparr>rd_state = START_RECORD, rd_fields = [], rd_field = []\<rparr>"

definition parse_save_field :: "reader \<Rightarrow> reader" where
  "parse_save_field r = r\<lparr>rd_fields := rd_fields r @ [rd_field r], rd_field := []\<rparr>"

definition parse_add_char :: "reader \<Rightarrow> char \<Rightarrow> py_error + reader" where
  "parse_add_char r c =
     (if length (rd_field r) \<ge> field_size_limit then Inl CsvError
      else Inr (r\<lparr>rd_field := rd_field r @ [c]\<rparr>))"

text \<open>A character at the start of a field (the case \<^verbatim>\<open>START_FIELD\<close>, into which \<^verbatim>\<open>START_RECORD\<close> falls).\<close>

definition start_field :: "reader \<Rightarrow> char \<Rightarrow> py_error + reader" where
  "start_field r c =
     (if c = LF \<or> c = CR then Inr ((parse_save_field r)\<lparr>rd_state := EAT_CRNL\<rparr>)
      else if c = QUOTE then Inr (r\<lparr>rd_state := IN_QUOTED_FIELD\<rparr>)
      else if c = COMMA then Inr ((parse_save_field r)\<lparr>rd_state := START_FIELD\<rparr>)
      else (case parse_add_char r c of
              Inl e \<Rightarrow> Inl e
            | Inr r' \<Rightarrow> Inr (r'\<lparr>rd_state := IN_FIELD\<rparr>)))"

definition parse_process_char :: "reader \<Rightarrow> char \<Rightarrow> py_error + reader" where
  "parse_process_char r c =
     (case rd_state r of
        START_RECORD \<Rightarrow>
          if c = LF \<or> c = CR then Inr (r\<lparr>rd_state := EAT_CRNL\<rparr>) else start_field r c
      | START_FIELD \<Rightarrow> start_field r c
      | IN_FIELD \<Rightarrow>
          if c = LF \<or> c = CR then Inr ((parse_save_field r)\<lparr>rd_state := EAT_CRNL\<rparr>)
          else if c = COMMA then Inr ((parse_save_field r)\<lparr>rd_state := START_FIELD\<rparr>)
          else parse_add_char r c
      | IN_QUOTED_FIELD \<Rightarrow>
          if c = QUOTE then Inr (r\<lparr>rd_state := QUOTE_IN_QUOTED_FIELD\<rparr>)
          else parse_add_char r c
      | QUOTE_IN_QUOTED_FIELD \<Rightarrow>
          if c = QUOTE then
            (case parse_add_char r c of
               Inl e \<Rightarrow> Inl e
             | Inr r' \<Rightarrow> Inr (r'\<lparr>rd_state := IN_QUOTED_FIELD\<rparr>))
          else if c = COMMA then Inr ((parse_save_field r)\<lparr>rd_state := START_FIELD\<rparr>)
          else if c = LF \<or> c = CR then Inr ((parse_save_field r)\<lparr>rd_state := EAT_CRNL\<rparr>)
          else (case parse_add_char r c of
                  Inl e \<Rightarrow> Inl e
                | Inr r' \<Rightarrow> Inr (r'\<lparr>rd_state := IN_FIELD\<rparr>))
      | EAT_CRNL \<Rightarrow>
          if c = LF \<or> c = CR then Inr r else Inl CsvError)"

text \<open>The end of a line, which the reader signals after the last character of each line.\<close>

definition parse_process_eol :: "reader \<Rightarrow> reader" where
  "parse_process_eol r =
     (case rd_state r of
        START_RECORD \<Rightarrow> r
      | START_FIELD \<Rightarrow> (parse_save_field r)\<lparr>rd_state := START_RECORD\<rparr>
      | IN_FIELD \<Rightarrow> (parse_save_field r)\<lparr>rd_state := START_RECORD\<rparr>
      | IN_QUOTED_FIELD \<Rightarrow> r
      | QUOTE_IN_QUOTED_FIELD \<Rightarrow> (parse_save_field r)\<lparr>rd_state := START_RECORD\<rparr>
      | EAT_CRNL \<Rightarrow> r\<lparr>rd_state := START_RECORD\<rparr>)"

text \<open>
  The lines of a file opened with \<^verbatim>\<open>newline=""\<close> end after LF, after a CR that no LF
  follows, and at the end of the text.
\<close>

definition line_ends :: "char \<Rightarrow> string \<Rightarrow> bool" where
  "line_ends c rest = (case rest of [] \<Rightarrow> True | d # _ \<Rightarrow> c = LF \<or> (c = CR \<and> d \<noteq> LF))"

text \<open>
  The records the reader yields, in order, and the error that ends the iteration,
  if one does. A record is yielded when a line ends in the state \<^verbatim>\<open>START_RECORD\<close>; at
  the end of the text an open field is saved and the record yielded.
\<close>

fun reader_next :: "reader \<Rightarrow> string \<Rightarrow> string list list \<times> py_error option" where
  "reader_next r [] =
     (if rd_field r \<noteq> [] \<or> rd_state r = IN_QUOTED_FIELD
      then ([rd_fields (parse_save_field r)], None) else ([], None))"
| "reader_next r (c # rest) =
     (case parse_process_char r c of
        Inl e \<Rightarrow> ([], Some e)
      | Inr r1 \<Rightarrow>
          if line_ends c rest then
            (let r2 = parse_process_eol r1
             in if rd_state r2 = START_RECORD
                then (case reader_next parse_reset rest of (recs, e) \<Rightarrow> (rd_fields r2 # recs, e))
                else reader_next r2 rest)
          else reader_next r1 rest)"

definition csv_reader :: "string \<Rightarrow> string list list \<times> py_error option" where
  "csv_reader text = reader_next parse_reset text"

subsection \<open>csv.DictReader\<close>

text \<open>
  The first record names the fields; an empty record is skipped; a row is the dictionary
  of \<^verbatim>\<open>zip(fieldnames, row)\<close>, a later duplicate of a name winning, and the names past
  the end of a short row map to \<^verbatim>\<open>None\<close>. \<open>d key = None\<close> is a key the dictionary does
  not have.
\<close>

type_synonym csv_dict = "string \<rightharpoonup> string option"

definition row_dict :: "string list \<Rightarrow> string list \<Rightarrow> csv_dict" where
  "row_dict fieldnames row =
     fold (\<lambda>k d. d(k \<mapsto> None)) (drop (length row) fieldnames)
       (fold (\<lambda>(k, v) d. d(k \<mapsto> Some v)) (zip fieldnames row) Map.empty)"

definition dict_reader :: "string list list \<Rightarrow> csv_dict list" where
  "dict_reader recs =
     (case recs of [] \<Rightarrow> []
      | fieldnames # rows \<Rightarrow> map (row_dict fieldnames) (filter (\<lambda>r. r \<noteq> []) rows))"

text \<open>
  The loop \<^verbatim>\<open>for row in reader: existing_dois.add(row[key])\<close> (and the set
  comprehension of \<^verbatim>\<open>load_existing_dois\<close>) over the rows read so far: KeyError at the
  first row without the key.
\<close>

fun add_dois :: "string \<Rightarrow> csv_dict list \<Rightarrow> string option set \<Rightarrow> py_error + string option set" where
  "add_dois key [] acc = Inr acc"
| "add_dois key (row # rows) acc =
     (case row key of
        None \<Rightarrow> Inl KeyError
      | Some v \<Rightarrow> add_dois key rows (insert v acc))"

text \<open>
  The whole loop over a file that exists. The reader is lazy: the rows before a record
  that cannot be read are looked up first, so a KeyError among them comes before the
  error of the reader.
\<close>

definition read_dois :: "string \<Rightarrow> csv_file \<Rightarrow> py_error + string option set" where
  "read_dois key text =
     (case csv_reader text of
        (recs, err) \<Rightarrow>
          (case add_dois key (dict_reader recs) {} of
             Inl e \<Rightarrow> Inl e
           | Inr dois \<Rightarrow> (case err of None \<Rightarrow> Inr dois | Some e \<Rightarrow> Inl e)))"

text \<open>\<^verbatim>\<open>csv\<close> writes \<^verbatim>\<open>None\<close> as the empty cell and an integer as \<^verbatim>\<open>str\<close> of it.\<close>

definition cell_of_str :: "string option \<Rightarrow> string" where
  "cell_of_str v = (case v of None \<Rightarrow> [] | Some s \<Rightarrow> s)"

definition cell_of_int :: "int option \<Rightarrow> string" where
  "cell_of_int v = (case v of None \<Rightarrow> [] | Some i \<Rightarrow> str_int i)"

section \<open>The script angew\_scaper.py\<close>

definition CSV_FILE_fieldnames :: "string list" where
  "CSV_FILE_fieldnames =
     [''title'', ''year'', ''doi'', ''url'', ''license'', ''abstract'', ''retrieved'']"

definition START_DATE :: string where
  "START_DATE = ''2025-07-01''"

text \<open>The dictionary appended to \<^verbatim>\<open>papers\<close> for one item.\<close>

record paper =
  title :: string
  doi :: string
  url :: string
  license :: string
  year :: "int option"
  abstract :: "string option"

text \<open>
  The body of the loop of \<^verbatim>\<open>find_open_access_angew_papers_from\<close>, in the order the
  source evaluates it; each \<^verbatim>\<open>[0]\<close> can raise.
\<close>

definition paper_of_item :: "raw_item \<Rightarrow> py_error + paper" where
  "paper_of_item item =
     (case first_elem (get_default (raw_title item) [''No title'']) of
        Inl e \<Rightarrow> Inl e
      | Inr t \<Rightarrow>
     (case first_elem (get_default (raw_license item) [\<lparr>license_URL = None\<rparr>]) of
        Inl e \<Rightarrow> Inl e
      | Inr lic \<Rightarrow>
     (case first_elem
             (get_default (date_parts (get_default (raw_issued item) \<lparr>date_parts = None\<rparr>))
                [[None]]) of
        Inl e \<Rightarrow> Inl e
      | Inr parts \<Rightarrow>
     (case first_elem parts of
        Inl e \<Rightarrow> Inl e
      | Inr y \<Rightarrow>
          (let a = py_strip (py_replace [CHR 0x0A] [CHR 0x20] (get_default (raw_abstract item) []))
           in Inr \<lparr>title = t,
                   doi = get_default (raw_DOI item) [],
                   url = get_default (raw_URL item) [],
                   license = get_default (license_URL lic) ''No license info'',
                   year = y,
                   abstract = (if a = [] then None else Some a)\<rparr>)))))"

fun papers_of_items :: "raw_item list \<Rightarrow> py_error + paper list" where
  "papers_of_items [] = Inr []"
| "papers_of_items (item # rest) =
     (case paper_of_item item of
        Inl e \<Rightarrow> Inl e
      | Inr p \<Rightarrow>
          (case papers_of_items rest of
             Inl e \<Rightarrow> Inl e
           | Inr ps \<Rightarrow> Inr (p # ps)))"

definition scaper_params :: "string \<Rightarrow> nat \<Rightarrow> (string \<times> string) list" where
  "scaper_params start_date rows =
     [(''filter'',
       ''container-title:Angewandte Chemie International Edition,license.url:*,from-pub-date:''
         @ start_date),
      (''rows'', str_nat rows),
      (''sort'', ''published''),
      (''order'', ''desc'')]"

definition find_open_access_angew_papers_from ::
    "world \<Rightarrow> string \<Rightarrow> nat \<Rightarrow> py_error + paper list" where
  "find_open_access_angew_papers_from w start_date rows =
     (case crossref_get w (scaper_params start_date rows) of
        ConnectionFailed \<Rightarrow> Inl RequestException
      | Response st body \<Rightarrow>
          if is_error_status st then Inl (HTTPError st)
          else (case body of
                  None \<Rightarrow> Inl JSONDecodeError
                | Some data \<Rightarrow>
                    papers_of_items
                      (get_default (items (get_default (message data) \<lparr>items = None\<rparr>)) [])))"

text \<open>
  The body of the \<^verbatim>\<open>try\<close> of \<^verbatim>\<open>get_abstract_from_europepmc\<close>, and the function
  with its \<^verbatim>\<open>except Exception: return None\<close>.
\<close>

definition europepmc_try :: "world \<Rightarrow> string \<Rightarrow> py_error + string option" where
  "europepmc_try w d =
     (case europepmc_get w [(''query'', ''DOI:'' @ d), (''format'', ''json'')] of
        ConnectionFailed \<Rightarrow> Inl RequestException
      | Response st body \<Rightarrow>
          if is_error_status st then Inr None
          else (case body of
                  None \<Rightarrow> Inl JSONDecodeError
                | Some data \<Rightarrow>
                    (let results =
                           get_default (result (get_default (resultList data) \<lparr>result = None\<rparr>)) []
                     in if results = [] then Inr None
                        else (case abstractText (hd results) of
                                None \<Rightarrow> Inr None
                              | Some a \<Rightarrow> Inr (if a = [] then None else Some (py_strip a))))))"

definition get_abstract_from_europepmc :: "world \<Rightarrow> string \<Rightarrow> string option" where
  "get_abstract_from_europepmc w d =
     (case europepmc_try w d of Inl e \<Rightarrow> None | Inr r \<Rightarrow> r)"

text \<open>\<^verbatim>\<open>x or default\<close> on an optional string: \<^verbatim>\<open>None\<close> and the empty string are falsy.\<close>

definition py_or :: "string option \<Rightarrow> string \<Rightarrow> string" where
  "py_or v d = (case v of None \<Rightarrow> d | Some s \<Rightarrow> if s = [] then d else s)"

text \<open>
  The enrichment loop of \<^verbatim>\<open>save_results_to_csv\<close>, one entry:
  \<^verbatim>\<open>if not p["abstract"]: p["abstract"] = abstract or "Abstract not available"\<close>.
\<close>

definition enrich :: "world \<Rightarrow> paper \<Rightarrow> paper" where
  "enrich w p =
     (if abstract p = None \<or> abstract p = Some []
      then p\<lparr>abstract := Some (py_or (get_abstract_from_europepmc w (doi p))
                                    ''Abstract not available'')\<rparr>
      else p)"

text \<open>\<^verbatim>\<open>writer.writerow(p)\<close> in the order of the field names.\<close>

definition paper_row :: "paper \<Rightarrow> string \<Rightarrow> string list" where
  "paper_row p retrieved =
     [title p, cell_of_int (year p), doi p, url p, license p,
      cell_of_str (abstract p), retrieved]"

fun write_papers :: "world \<Rightarrow> nat \<Rightarrow> paper list \<Rightarrow> string list list" where
  "write_papers w k [] = []"
| "write_papers w k (p # ps) = paper_row p (now w k) # write_papers w (Suc k) ps"

text \<open>
  \<^verbatim>\<open>save_results_to_csv\<close>: the file after the call, and the error raised or the number
  of papers added (0 for "No new open-access papers found").
\<close>

definition save_results_to_csv ::
    "world \<Rightarrow> paper list \<Rightarrow> csv_file option \<Rightarrow> csv_file option \<times> (py_error + nat)" where
  "save_results_to_csv w papers csv =
     (case (case csv of None \<Rightarrow> Inr {} | Some text \<Rightarrow> read_dois ''doi'' text) of
        Inl e \<Rightarrow> (csv, Inl e)
      | Inr existing_dois \<Rightarrow>
          (let new_entries = filter (\<lambda>p. Some (doi p) \<notin> existing_dois) papers
           in if new_entries = [] then (csv, Inr 0)
              else (let enriched = map (enrich w) new_entries
                    in (Some ((case csv of
                                  None \<Rightarrow> csv_writerow CSV_FILE_fieldnames
                                | Some text \<Rightarrow> text)
                               @ csv_text (write_papers w 0 enriched)),
                        Inr (length new_entries)))))"

text \<open>The script: \<^verbatim>\<open>papers = find_open_access_angew_papers_from(START_DATE)\<close>, then save.\<close>

definition scaper_main :: "world \<Rightarrow> csv_file option \<Rightarrow> csv_file option \<times> (py_error + nat)" where
  "scaper_main w csv =
     (case find_open_access_angew_papers_from w START_DATE 50 of
        Inl e \<Rightarrow> (csv, Inl e)
      | Inr papers \<Rightarrow> save_results_to_csv w papers csv)"

section \<open>The script angew\_scraper.py\<close>

definition JOURNAL :: string where
  "JOURNAL = ''Angewandte Chemie International Edition''"

definition QUERY :: string where
  "QUERY = ''organic chemistry''"

definition ROWS :: nat where
  "ROWS = 50"

definition OUTPUT_FILE_fieldnames :: "string list" where
  "OUTPUT_FILE_fieldnames = [''Title'', ''Authors'', ''DOI'', ''URL'', ''Date'', ''Abstract'']"

definition scraper_params :: "string \<Rightarrow> (string \<times> string) list" where
  "scraper_params from_date =
     [(''filter'', ''from-pub-date:'' @ from_date @ '',container-title:'' @ JOURNAL
         @ '',type:journal-article,license.url:*''),
      (''query'', QUERY),
      (''rows'', str_nat ROWS),
      (''select'', ''DOI,title,author,issued,URL,license,abstract'')]"

definition get_crossref_data :: "world \<Rightarrow> string \<Rightarrow> py_error + crossref_body" where
  "get_crossref_data w from_date =
     (case crossref_get w (scraper_params from_date) of
        ConnectionFailed \<Rightarrow> Inl RequestException
      | Response st body \<Rightarrow>
          if is_error_status st then Inl (HTTPError st)
          else (case body of None \<Rightarrow> Inl JSONDecodeError | Some data \<Rightarrow> Inr data))"

definition load_existing_dois :: "csv_file option \<Rightarrow> py_error + string option set" where
  "load_existing_dois csv =
     (case csv of None \<Rightarrow> Inr {} | Some text \<Rightarrow> read_dois ''DOI'' text)"

record entry =
  Title :: string
  Authors :: string
  DOI :: string
  URL :: string
  Date :: string
  Abstract :: string

definition entry_row :: "entry \<Rightarrow> string list" where
  "entry_row e = [Title e, Authors e, DOI e, URL e, Date e, Abstract e]"

definition append_to_csv :: "entry list \<Rightarrow> csv_file option \<Rightarrow> csv_file option" where
  "append_to_csv results csv =
     Some ((case csv of None \<Rightarrow> csv_writerow OUTPUT_FILE_fieldnames | Some text \<Rightarrow> text)
           @ csv_text (map entry_row results))"

text \<open>
  \<^verbatim>\<open>"-".join(str(p) for p in date_parts[0] if p)\<close>: \<^verbatim>\<open>None\<close> and 0 are falsy.
\<close>

definition truthy_parts :: "int option list \<Rightarrow> int list" where
  "truthy_parts parts =
     concat (map (\<lambda>p. case p of None \<Rightarrow> [] | Some i \<Rightarrow> if i = 0 then [] else [i]) parts)"

definition pub_date_of :: "int option list \<Rightarrow> string" where
  "pub_date_of parts = py_join ''-'' (map str_int (truthy_parts parts))"

text \<open>
  The body of the loop of \<^verbatim>\<open>main\<close> for one item: \<open>Inr None\<close> is \<^verbatim>\<open>continue\<close>,
  \<open>Inr (Some e)\<close> the entry appended to \<^verbatim>\<open>new_entries\<close>.
\<close>

definition entry_of_item :: "string option set \<Rightarrow> raw_item \<Rightarrow> py_error + entry option" where
  "entry_of_item existing_dois i =
     (let d = get_default (raw_DOI i) []
      in if d = [] \<or> Some d \<in> existing_dois then Inr None
         else (let t = py_join [CHR 0x20] (get_default (raw_title i) []);
                   authors = py_join '', ''
                     (concat (map (\<lambda>a. case family a of None \<Rightarrow> [] | Some f \<Rightarrow> [f])
                                (get_default (raw_author i) [])));
                   dps = get_default (date_parts (get_default (raw_issued i) \<lparr>date_parts = None\<rparr>))
                           [[None]]
               in (case first_elem dps of
                     Inl e \<Rightarrow> Inl e
                   | Inr parts \<Rightarrow>
                       Inr (Some \<lparr>Title = t,
                                  Authors = authors,
                                  DOI = d,
                                  URL = get_default (raw_URL i) [],
                                  Date = pub_date_of parts,
                                  Abstract =
                                    py_strip (py_replace ''</jats:p>'' []
                                      (py_replace ''<jats:p>'' []
                                         (get_default (raw_abstract i) [])))\<rparr>))))"

fun entries_of_items :: "string option set \<Rightarrow> raw_item list \<Rightarrow> py_error + entry list" where
  "entries_of_items existing_dois [] = Inr []"
| "entries_of_items existing_dois (i # rest) =
     (case entry_of_item existing_dois i of
        Inl e \<Rightarrow> Inl e
      | Inr r \<Rightarrow>
          (case entries_of_items existing_dois rest of
             Inl e \<Rightarrow> Inl e
           | Inr es \<Rightarrow> Inr ((case r of None \<Rightarrow> [] | Some e \<Rightarrow> [e]) @ es)))"

definition main :: "world \<Rightarrow> csv_file option \<Rightarrow> csv_file option \<times> (py_error + nat)" where
  "main w csv =
     (case get_crossref_data w ''2024-07-01'' of
        Inl e \<Rightarrow> (csv, Inl e)
      | Inr data \<Rightarrow>
          (let its = get_default (items (get_default (message data) \<lparr>items = None\<rparr>)) []
           in (case load_existing_dois csv of
                 Inl e \<Rightarrow> (csv, Inl e)
               | Inr existing_dois \<Rightarrow>
                   (case entries_of_items existing_dois its of
                      Inl e \<Rightarrow> (csv, Inl e)
                    | Inr new_entries \<Rightarrow>
                        if new_entries \<noteq> []
                        then (append_to_csv new_entries csv, Inr (length new_entries))
                        else (csv, Inr 0)))))"

section \<open>Notions the properties are stated with\<close>

text \<open>A row the reader can read back: no cell is longer than the field size limit.\<close>

definition fits :: "string list \<Rightarrow> bool" where
  "fits row = list_all (\<lambda>f. length f \<le> field_size_limit) row"

text \<open>
  The identifiers recorded in a sequence of records and in the file: what a
  \<^verbatim>\<open>DictReader\<close> finds under the key, row by row (\<open>None\<close> where the row has no such key),
  in the rows it reads before an error, if any.
\<close>

definition recorded_in :: "string \<Rightarrow> string list list \<Rightarrow> string option option list" where
  "recorded_in key recs = map (\<lambda>d. d key) (dict_reader recs)"

definition recorded :: "string \<Rightarrow> csv_file option \<Rightarrow> string option option list" where
  "recorded key csv =
     (case csv of None \<Rightarrow> [] | Some text \<Rightarrow> recorded_in key (fst (csv_reader text)))"

text \<open>The identifiers of the items of a fetched page, \<^verbatim>\<open>item.get("DOI", "")\<close> of each.\<close>

definition page_dois :: "crossref_body http_response \<Rightarrow> string list" where
  "page_dois r =
     (case r of
        ConnectionFailed \<Rightarrow> []
      | Response st body \<Rightarrow>
          (case body of
             None \<Rightarrow> []
           | Some data \<Rightarrow>
               map (\<lambda>i. get_default (raw_DOI i) [])
                 (get_default (items (get_default (message data) \<lparr>items = None\<rparr>)) [])))"

text \<open>
  The identifiers a script reads from the store at the start of a run: none when there
  is no file, the loop over the rows of the file otherwise.
\<close>

definition existing_dois :: "string \<Rightarrow> csv_file option \<Rightarrow> py_error + string option set" where
  "existing_dois key csv = (case csv of None \<Rightarrow> Inr {} | Some text \<Rightarrow> read_dois key text)"


text \<open>The number of rows a run reports as added; none when it ends with an error.\<close>

definition added :: "py_error + nat \<Rightarrow> nat" where
  "added r = (case r of Inl e \<Rightarrow> 0 | Inr k \<Rightarrow> k)"

section \<open>Concrete inputs\<close>

text \<open>A page of items answered with status 200, and a world that gives fixed answers.\<close>

definition page :: "raw_item list \<Rightarrow> crossref_body http_response" where
  "page its = Response 200 (Some \<lparr>message = Some \<lparr>items = Some its\<rparr>\<rparr>)"

definition fixed_world :: "crossref_body http_response \<Rightarrow> epmc_body http_response \<Rightarrow> world" where
  "fixed_world c e =
     \<lparr>crossref_get = (\<lambda>q. c), europepmc_get = (\<lambda>q. e), now = (\<lambda>k. ''2025-08-01 12:00'')\<rparr>"

definition epmc_found :: "string \<Rightarrow> epmc_body http_response" where
  "epmc_found a =
     Response 200 (Some \<lparr>resultList = Some \<lparr>result = Some [\<lparr>abstractText = Some a\<rparr>]\<rparr>\<rparr>)"

text \<open>An item with every field but the abstract, and variants of it.\<close>

definition item_abc :: raw_item where
  "item_abc =
     \<lparr>raw_title = Some [''A title''],
      raw_DOI = Some ''10.1/abc'',
      raw_URL = Some ''https://doi.org/10.1/abc'',
      raw_license = Some [\<lparr>license_URL = Some ''https://cc/by''\<rparr>],
      raw_issued = Some \<lparr>date_parts = Some [[Some 2024, Some 7]]\<rparr>,
      raw_abstract = None,
      raw_author = Some [\<lparr>family = Some ''Stokes''\<rparr>]\<rparr>"

definition item_no_doi :: raw_item where
  "item_no_doi = item_abc\<lparr>raw_DOI := None\<rparr>"

definition item_no_title :: raw_item where
  "item_no_title = item_abc\<lparr>raw_title := None\<rparr>"

definition item_empty_title :: raw_item where
  "item_empty_title = item_abc\<lparr>raw_title := Some []\<rparr>"

definition item_xyz :: raw_item where
  "item_xyz = item_abc\<lparr>raw_DOI := Some ''10.1/xyz'', raw_abstract := Some ''<jats:p>Text.</jats:p>''\<rparr>"


section \<open>The reader reads what the writer wrote\<close>

lemma special_distinct [simp]:
  "COMMA \<noteq> QUOTE" "COMMA \<noteq> CR" "COMMA \<noteq> LF" "QUOTE \<noteq> CR" "QUOTE \<noteq> LF" "CR \<noteq> LF"
  "QUOTE \<noteq> COMMA" "CR \<noteq> COMMA" "LF \<noteq> COMMA" "CR \<noteq> QUOTE" "LF \<noteq> QUOTE" "LF \<noteq> CR"
  by (simp_all add: COMMA_def QUOTE_def CR_def LF_def)

lemma limit_pos [simp]: "0 < field_size_limit"
  by (simp add: field_size_limit_def)

lemma line_ends_plain:
  "c \<noteq> LF \<Longrightarrow> c \<noteq> CR \<Longrightarrow> rest \<noteq> [] \<Longrightarrow> \<not> line_ends c rest"
  by (cases rest) (auto simp: line_ends_def)

lemma in_field_plain:
  assumes "\<forall>c \<in> set f. c \<noteq> COMMA \<and> c \<noteq> CR \<and> c \<noteq> LF" and "rest \<noteq> []"
    and "length acc \<le> field_size_limit"
  shows "reader_next \<lparr>rd_state = IN_FIELD, rd_fields = fs, rd_field = acc\<rparr> (f @ rest)
         = (if length acc + length f \<le> field_size_limit
            then reader_next \<lparr>rd_state = IN_FIELD, rd_fields = fs, rd_field = acc @ f\<rparr> rest
            else ([], Some CsvError))"
  using assms
proof (induction f arbitrary: acc)
  case Nil
  then show ?case by simp
next
  case (Cons c f)
  have plain: "c \<noteq> COMMA" "c \<noteq> CR" "c \<noteq> LF"
    using Cons.prems(1) by simp_all
  have nl: "\<not> line_ends c (f @ rest)"
    using plain Cons.prems(2) by (intro line_ends_plain) simp_all
  show ?case
  proof (cases "length acc < field_size_limit")
    case True
    have step: "parse_process_char \<lparr>rd_state = IN_FIELD, rd_fields = fs, rd_field = acc\<rparr> c
        = Inr \<lparr>rd_state = IN_FIELD, rd_fields = fs, rd_field = acc @ [c]\<rparr>"
      using True plain by (simp add: parse_process_char_def parse_add_char_def)
    have "length (acc @ [c]) \<le> field_size_limit"
      using True by simp
    from Cons.IH [OF _ Cons.prems(2) this] Cons.prems(1)
    show ?thesis
      using step nl by simp
  next
    case False
    then have "parse_process_char \<lparr>rd_state = IN_FIELD, rd_fields = fs, rd_field = acc\<rparr> c
        = Inl CsvError"
      using plain by (simp add: parse_process_char_def parse_add_char_def)
    then show ?thesis using False by simp
  qed
qed

lemma esc_simps [simp]:
  "esc [] = []"
  "esc (c # f) = (if c = QUOTE then [QUOTE, QUOTE] else [c]) @ esc f"
  by (simp_all add: esc_def)

lemma in_quoted:
  assumes "d \<noteq> QUOTE" and "length acc \<le> field_size_limit"
  shows "reader_next \<lparr>rd_state = IN_QUOTED_FIELD, rd_fields = fs, rd_field = acc\<rparr>
           (esc f @ QUOTE # d # rest)
         = (if length acc + length f \<le> field_size_limit
            then reader_next \<lparr>rd_state = QUOTE_IN_QUOTED_FIELD, rd_fields = fs, rd_field = acc @ f\<rparr>
                   (d # rest)
            else ([], Some CsvError))"
  using assms(2)
proof (induction f arbitrary: acc)
  case Nil
  have "parse_process_char \<lparr>rd_state = IN_QUOTED_FIELD, rd_fields = fs, rd_field = acc\<rparr> QUOTE
        = Inr \<lparr>rd_state = QUOTE_IN_QUOTED_FIELD, rd_fields = fs, rd_field = acc\<rparr>"
    by (simp add: parse_process_char_def)
  moreover have "\<not> line_ends QUOTE (d # rest)"
    by (simp add: line_ends_def)
  ultimately show ?case using Nil by simp
next
  case (Cons c f)
  show ?case
  proof (cases "length acc < field_size_limit")
    case False
    have "parse_process_char \<lparr>rd_state = IN_QUOTED_FIELD, rd_fields = fs, rd_field = acc\<rparr> c
        = Inl CsvError" if "c \<noteq> QUOTE"
      using that False by (simp add: parse_process_char_def parse_add_char_def)
    moreover have "parse_process_char \<lparr>rd_state = QUOTE_IN_QUOTED_FIELD, rd_fields = fs, rd_field = acc\<rparr> QUOTE
        = Inl CsvError"
      using False by (simp add: parse_process_char_def parse_add_char_def)
    moreover have "parse_process_char \<lparr>rd_state = IN_QUOTED_FIELD, rd_fields = fs, rd_field = acc\<rparr> QUOTE
        = Inr \<lparr>rd_state = QUOTE_IN_QUOTED_FIELD, rd_fields = fs, rd_field = acc\<rparr>"
      by (simp add: parse_process_char_def)
    moreover have "\<not> line_ends QUOTE (QUOTE # xs)" for xs
      by (simp add: line_ends_def)
    ultimately show ?thesis
      using False by (cases "c = QUOTE") simp_all
  next
    case True
    have len: "length (acc @ [c]) \<le> field_size_limit"
      using True by simp
    note IH = Cons.IH [OF len]
    show ?thesis
    proof (cases "c = QUOTE")
      case q: True
      have s1: "parse_process_char \<lparr>rd_state = IN_QUOTED_FIELD, rd_fields = fs, rd_field = acc\<rparr> QUOTE
        = Inr \<lparr>rd_state = QUOTE_IN_QUOTED_FIELD, rd_fields = fs, rd_field = acc\<rparr>"
        by (simp add: parse_process_char_def)
      have s2: "parse_process_char \<lparr>rd_state = QUOTE_IN_QUOTED_FIELD, rd_fields = fs, rd_field = acc\<rparr> QUOTE
        = Inr \<lparr>rd_state = IN_QUOTED_FIELD, rd_fields = fs, rd_field = acc @ [QUOTE]\<rparr>"
        using True by (simp add: parse_process_char_def parse_add_char_def)
      have nl: "\<not> line_ends QUOTE (x # xs)" for x xs
        by (simp add: line_ends_def)
      have ne: "esc f @ QUOTE # d # rest = hd (esc f @ QUOTE # d # rest) # tl (esc f @ QUOTE # d # rest)"
        by (cases "esc f") simp_all
      have nl2: "\<not> line_ends QUOTE (esc f @ QUOTE # d # rest)"
        by (subst ne) (rule nl)
      show ?thesis
        using q s1 s2 nl nl2 IH by simp
    next
      case nq: False
      have s1: "parse_process_char \<lparr>rd_state = IN_QUOTED_FIELD, rd_fields = fs, rd_field = acc\<rparr> c
        = Inr \<lparr>rd_state = IN_QUOTED_FIELD, rd_fields = fs, rd_field = acc @ [c]\<rparr>"
        using True nq by (simp add: parse_process_char_def parse_add_char_def)
      have eol: "parse_process_eol \<lparr>rd_state = IN_QUOTED_FIELD, rd_fields = fs, rd_field = acc @ [c]\<rparr>
        = \<lparr>rd_state = IN_QUOTED_FIELD, rd_fields = fs, rd_field = acc @ [c]\<rparr>"
        by (simp add: parse_process_eol_def)
      show ?thesis
        using nq s1 eol IH by (simp add: Let_def)
    qed
  qed
qed

lemma read_field:
  assumes s: "s = START_FIELD \<or> (s = START_RECORD \<and> \<not> (f = [] \<and> d = CR))"
    and d: "d = COMMA \<or> d = CR"
    and rest: "rest \<noteq> []" "d = CR \<longrightarrow> hd rest = LF"
  shows "reader_next \<lparr>rd_state = s, rd_fields = fs, rd_field = []\<rparr> (csv_field f @ d # rest)
         = (if length f \<le> field_size_limit
            then reader_next
                   \<lparr>rd_state = (if d = COMMA then START_FIELD else EAT_CRNL),
                    rd_fields = fs @ [f], rd_field = []\<rparr> rest
            else ([], Some CsvError))"
proof -
  have nl_d: "\<not> line_ends d rest"
    using d rest by (cases rest) (auto simp: line_ends_def)
  have dq: "d \<noteq> QUOTE"
    using d by auto
  show ?thesis
  proof (cases "needs_quotes f")
    case True
    have open_q: "parse_process_char \<lparr>rd_state = s, rd_fields = fs, rd_field = []\<rparr> QUOTE
        = Inr \<lparr>rd_state = IN_QUOTED_FIELD, rd_fields = fs, rd_field = []\<rparr>"
      using s by (auto simp: parse_process_char_def start_field_def)
    have nl_q: "\<not> line_ends QUOTE (esc f @ QUOTE # d # rest)"
      by (intro line_ends_plain) simp_all
    have close_d: "parse_process_char
          \<lparr>rd_state = QUOTE_IN_QUOTED_FIELD, rd_fields = fs, rd_field = f\<rparr> d
        = Inr \<lparr>rd_state = (if d = COMMA then START_FIELD else EAT_CRNL),
               rd_fields = fs @ [f], rd_field = []\<rparr>"
      using d by (auto simp: parse_process_char_def parse_save_field_def)
    have "reader_next \<lparr>rd_state = s, rd_fields = fs, rd_field = []\<rparr>
            (QUOTE # esc f @ QUOTE # d # rest)
          = reader_next \<lparr>rd_state = IN_QUOTED_FIELD, rd_fields = fs, rd_field = []\<rparr>
              (esc f @ QUOTE # d # rest)"
      using open_q nl_q by simp
    also have "\<dots> = (if length f \<le> field_size_limit
            then reader_next \<lparr>rd_state = QUOTE_IN_QUOTED_FIELD, rd_fields = fs, rd_field = f\<rparr>
                   (d # rest)
            else ([], Some CsvError))"
      using in_quoted [OF dq, of "[]" fs f rest] by simp
    finally show ?thesis
      using True close_d nl_d by (simp add: csv_field_def quote_field_def)
  next
    case False
    then have plain: "\<forall>c \<in> set f. c \<noteq> COMMA \<and> c \<noteq> QUOTE \<and> c \<noteq> CR \<and> c \<noteq> LF"
      by (auto simp: needs_quotes_def)
    show ?thesis
    proof (cases f)
      case Nil
      have "parse_process_char \<lparr>rd_state = s, rd_fields = fs, rd_field = []\<rparr> d
        = Inr \<lparr>rd_state = (if d = COMMA then START_FIELD else EAT_CRNL),
               rd_fields = fs @ [[]], rd_field = []\<rparr>"
        using s d Nil by (auto simp: parse_process_char_def start_field_def parse_save_field_def)
      then show ?thesis
        using False Nil nl_d by (simp add: csv_field_def)
    next
      case (Cons c f')
      have c: "c \<noteq> COMMA" "c \<noteq> QUOTE" "c \<noteq> CR" "c \<noteq> LF"
        using plain Cons by simp_all
      have first: "parse_process_char \<lparr>rd_state = s, rd_fields = fs, rd_field = []\<rparr> c
        = Inr \<lparr>rd_state = IN_FIELD, rd_fields = fs, rd_field = [c]\<rparr>"
        using s c by (auto simp: parse_process_char_def start_field_def parse_add_char_def)
      have nl_c: "\<not> line_ends c (f' @ d # rest)"
        using c by (intro line_ends_plain) simp_all
      have plain': "\<forall>c \<in> set f'. c \<noteq> COMMA \<and> c \<noteq> CR \<and> c \<noteq> LF"
        using plain Cons by simp
      have one: "length [c] \<le> field_size_limit"
        using limit_pos by (simp add: Suc_le_eq)
      have last: "parse_process_char \<lparr>rd_state = IN_FIELD, rd_fields = fs, rd_field = f\<rparr> d
        = Inr \<lparr>rd_state = (if d = COMMA then START_FIELD else EAT_CRNL),
               rd_fields = fs @ [f], rd_field = []\<rparr>"
        using d by (auto simp: parse_process_char_def parse_save_field_def)
      have "reader_next \<lparr>rd_state = s, rd_fields = fs, rd_field = []\<rparr> (c # f' @ d # rest)
          = reader_next \<lparr>rd_state = IN_FIELD, rd_fields = fs, rd_field = [c]\<rparr> (f' @ d # rest)"
        using first nl_c by simp
      also have "\<dots> = (if length [c] + length f' \<le> field_size_limit
            then reader_next \<lparr>rd_state = IN_FIELD, rd_fields = fs, rd_field = [c] @ f'\<rparr> (d # rest)
            else ([], Some CsvError))"
        using in_field_plain [OF plain' _ one, of "d # rest" fs] by simp
      finally show ?thesis
        using False Cons last nl_d by (simp add: csv_field_def)
    qed
  qed
qed

lemma read_row_fields:
  assumes "row \<noteq> []" and "s = START_FIELD \<or> (s = START_RECORD \<and> row \<noteq> [[]])"
  shows "reader_next \<lparr>rd_state = s, rd_fields = fs, rd_field = []\<rparr>
           (py_join [COMMA] (map csv_field row) @ CR # LF # rest)
         = (if fits row
            then (case reader_next parse_reset rest of (recs, e) \<Rightarrow> ((fs @ row) # recs, e))
            else ([], Some CsvError))"
  using assms
proof (induction row arbitrary: s fs)
  case Nil
  then show ?case by simp
next
  case (Cons f row)
  show ?case
  proof (cases row)
    case Nil
    have s: "s = START_FIELD \<or> (s = START_RECORD \<and> \<not> (f = [] \<and> CR = CR))"
      using Cons.prems(2) Nil by auto
    have lf: "parse_process_char \<lparr>rd_state = EAT_CRNL, rd_fields = fs @ [f], rd_field = []\<rparr> LF
        = Inr \<lparr>rd_state = EAT_CRNL, rd_fields = fs @ [f], rd_field = []\<rparr>"
      by (simp add: parse_process_char_def)
    have ends: "line_ends LF rest"
      by (cases rest) (simp_all add: line_ends_def)
    have eol: "parse_process_eol \<lparr>rd_state = EAT_CRNL, rd_fields = fs @ [f], rd_field = []\<rparr>
        = \<lparr>rd_state = START_RECORD, rd_fields = fs @ [f], rd_field = []\<rparr>"
      by (simp add: parse_process_eol_def)
    have "reader_next \<lparr>rd_state = EAT_CRNL, rd_fields = fs @ [f], rd_field = []\<rparr> (LF # rest)
        = (case reader_next parse_reset rest of (recs, e) \<Rightarrow> ((fs @ [f]) # recs, e))"
      using lf ends eol by (simp add: Let_def)
    then show ?thesis
      using read_field [OF s, of "LF # rest" fs] Nil by (simp add: fits_def)
  next
    case (Cons g gs)
    have s: "s = START_FIELD \<or> (s = START_RECORD \<and> \<not> (f = [] \<and> COMMA = CR))"
      using Cons.prems(2) by auto
    have IH: "reader_next \<lparr>rd_state = START_FIELD, rd_fields = fs @ [f], rd_field = []\<rparr>
           (py_join [COMMA] (map csv_field row) @ CR # LF # rest)
         = (if fits row
            then (case reader_next parse_reset rest of (recs, e) \<Rightarrow> (((fs @ [f]) @ row) # recs, e))
            else ([], Some CsvError))"
      using Cons.IH [of START_FIELD "fs @ [f]"] Cons by simp
    have "reader_next \<lparr>rd_state = s, rd_fields = fs, rd_field = []\<rparr>
           (csv_field f @ COMMA # py_join [COMMA] (map csv_field row) @ CR # LF # rest)
         = (if length f \<le> field_size_limit
            then reader_next \<lparr>rd_state = START_FIELD, rd_fields = fs @ [f], rd_field = []\<rparr>
                   (py_join [COMMA] (map csv_field row) @ CR # LF # rest)
            else ([], Some CsvError))"
      using read_field [OF s, of "py_join [COMMA] (map csv_field row) @ CR # LF # rest" fs] by simp
    then show ?thesis
      using IH Cons by (simp add: fits_def)
  qed
qed

lemma read_row:
  "reader_next parse_reset (csv_writerow row @ rest)
     = (if fits row
        then (case reader_next parse_reset rest of (recs, e) \<Rightarrow> (row # recs, e))
        else ([], Some CsvError))"
proof -
  have ends: "line_ends LF rest"
    by (cases rest) (simp_all add: line_ends_def)
  consider "row = []" | "row = [[]]" | "row \<noteq> []" "row \<noteq> [[]]" by blast
  then show ?thesis
  proof cases
    case 1
    then show ?thesis
      using ends
      by (simp add: csv_writerow_def parse_reset_def parse_process_char_def parse_process_eol_def
          line_ends_def fits_def Let_def)
  next
    case 2
    then show ?thesis
      using ends
      by (simp add: csv_writerow_def quote_field_def parse_reset_def parse_process_char_def
          start_field_def parse_save_field_def parse_process_eol_def line_ends_def fits_def Let_def)
  next
    case 3
    then show ?thesis
      using read_row_fields [of row START_RECORD "[]" rest]
      by (simp add: csv_writerow_def parse_reset_def)
  qed
qed

lemma csv_reader_csv_text:
  "csv_reader (csv_text rows)
     = (takeWhile fits rows, if list_all fits rows then None else Some CsvError)"
proof (induction rows)
  case Nil
  then show ?case by (simp add: csv_reader_def csv_text_def parse_reset_def)
next
  case (Cons row rows)
  have "csv_text (row # rows) = csv_writerow row @ csv_text rows"
    by (simp add: csv_text_def)
  then show ?case
    using Cons.IH read_row [of row "csv_text rows"] by (simp add: csv_reader_def)
qed

section \<open>Facts about reading and writing the file\<close>

lemma dom_fold_none: "dom (fold (\<lambda>k d. d(k \<mapsto> None)) ks d0) = set ks \<union> dom d0"
  by (induction ks arbitrary: d0) auto

lemma dom_fold_some: "dom (fold (\<lambda>(k, v) d. d(k \<mapsto> Some v)) kvs d0) = fst ` set kvs \<union> dom d0"
  by (induction kvs arbitrary: d0) auto

lemma dom_row_dict: "dom (row_dict h r) = set h"
proof -
  have "fst ` set (zip h r) = set (take (length r) h)"
    by (metis map_fst_zip_take set_map min.commute take_take take_all_iff le_refl)
  then show ?thesis
    unfolding row_dict_def dom_fold_none dom_fold_some
    by (metis Un_commute append_take_drop_id dom_empty set_append sup_bot.right_neutral)
qed

lemma add_dois_total:
  "\<forall>row \<in> set rows. row key \<noteq> None \<Longrightarrow>
   add_dois key rows acc = Inr (acc \<union> (\<lambda>row. the (row key)) ` set rows)"
  by (induction rows arbitrary: acc) auto

lemma dict_reader_has_key:
  "key \<in> set h \<Longrightarrow> \<forall>row \<in> set (dict_reader (h # rs)). row key \<noteq> None"
  using dom_row_dict by (auto simp: dict_reader_def)




lemma doi_enrich: "doi (enrich w p) = doi p"
  by (simp add: enrich_def)

lemma write_papers_nth:
  "j < length ps \<Longrightarrow> write_papers w k ps ! j = paper_row (ps ! j) (now w (k + j))"
proof (induction ps arbitrary: k j)
  case Nil
  then show ?case by simp
next
  case (Cons p ps)
  then show ?case by (cases j) auto
qed

lemma length_write_papers: "length (write_papers w k ps) = length ps"
  by (induction ps arbitrary: k) auto



section \<open>Facts about the functions of the two scripts\<close>

lemma europepmc_cases:
  "get_abstract_from_europepmc w d = None \<or>
   (\<exists>st data r rs a.
      europepmc_get w [(''query'', ''DOI:'' @ d), (''format'', ''json'')] = Response st (Some data)
      \<and> get_default (result (get_default (resultList data) \<lparr>result = None\<rparr>)) [] = r # rs
      \<and> abstractText r = Some a
      \<and> get_abstract_from_europepmc w d = Some (py_strip a))"
proof (cases "europepmc_get w [(''query'', ''DOI:'' @ d), (''format'', ''json'')]")
  case ConnectionFailed
  then show ?thesis
    by (simp add: get_abstract_from_europepmc_def europepmc_try_def)
next
  case (Response st body)
  show ?thesis
  proof (cases body)
    case None
    with Response show ?thesis
      by (simp add: get_abstract_from_europepmc_def europepmc_try_def)
  next
    case (Some data)
    show ?thesis
    proof (cases "get_default (result (get_default (resultList data) \<lparr>result = None\<rparr>)) []")
      case Nil
      with Response Some show ?thesis
        by (simp add: get_abstract_from_europepmc_def europepmc_try_def)
    next
      case (Cons r rs)
      with Response Some show ?thesis
        by (cases "abstractText r")
           (simp_all add: get_abstract_from_europepmc_def europepmc_try_def)
    qed
  qed
qed

lemma europepmc_errors:
  "(europepmc_get w [(''query'', ''DOI:'' @ d), (''format'', ''json'')] = ConnectionFailed
      \<longrightarrow> get_abstract_from_europepmc w d = None)
   \<and> (europepmc_get w [(''query'', ''DOI:'' @ d), (''format'', ''json'')] = Response st body
        \<and> 400 \<le> st \<and> st < 600
      \<longrightarrow> get_abstract_from_europepmc w d = None)
   \<and> (europepmc_get w [(''query'', ''DOI:'' @ d), (''format'', ''json'')] = Response st None
      \<longrightarrow> get_abstract_from_europepmc w d = None)
   \<and> (europepmc_get w [(''query'', ''DOI:'' @ d), (''format'', ''json'')] = Response st (Some data)
        \<and> get_default (result (get_default (resultList data) \<lparr>result = None\<rparr>)) [] = []
      \<longrightarrow> get_abstract_from_europepmc w d = None)
   \<and> (europepmc_try w d = Inl e \<longrightarrow> get_abstract_from_europepmc w d = None)"
  by (auto simp: get_abstract_from_europepmc_def europepmc_try_def Let_def is_error_status_def)

lemma find_indep: "find_open_access_angew_papers_from (w\<lparr>europepmc_get := g\<rparr>) s n = find_open_access_angew_papers_from w s n"
  by (simp add: find_open_access_angew_papers_from_def)

lemma save_result_indep:
  "snd (save_results_to_csv (w\<lparr>europepmc_get := g\<rparr>) papers csv) = snd (save_results_to_csv w papers csv)"
  by (auto simp: save_results_to_csv_def Let_def split: sum.splits option.splits)

lemma scaper_result_indep:
  "snd (scaper_main (w\<lparr>europepmc_get := g\<rparr>) csv) = snd (scaper_main w csv)"
  by (simp add: scaper_main_def find_indep save_result_indep split: sum.splits)

lemma pub_date_examples:
  "pub_date_of [Some 2024] = ''2024''"
  "pub_date_of [Some 2024, Some 7] = ''2024-7''"
  "pub_date_of [Some 2024, Some 7, Some 15] = ''2024-7-15''"
  by (simp_all add: pub_date_of_def truthy_parts_def str_int_def str_nat.simps)

lemma truthy_parts_None: "truthy_parts (xs @ None # ys) = truthy_parts (xs @ ys)"
  by (simp add: truthy_parts_def)

lemma entry_Date:
  "entry_of_item E i = Inr (Some e) \<Longrightarrow> raw_issued i = Some \<lparr>date_parts = Some (parts # others)\<rparr>
   \<Longrightarrow> Date e = pub_date_of parts"
  by (auto simp: entry_of_item_def Let_def get_default_def first_elem_def split: if_splits)

lemma paper_year:
  "paper_of_item i = Inr p \<Longrightarrow> raw_issued i = Some \<lparr>date_parts = Some ((y # rest) # others)\<rparr>
   \<Longrightarrow> year p = y"
  by (auto simp: paper_of_item_def Let_def get_default_def first_elem_def split: sum.splits list.splits)

lemma paper_title_absent:
  "raw_title i = None \<Longrightarrow> paper_of_item i = Inr p \<Longrightarrow> title p = ''No title''"
  by (auto simp: paper_of_item_def Let_def get_default_def first_elem_def split: sum.splits list.splits)

lemma entry_title_absent:
  "raw_title i = None \<Longrightarrow> entry_of_item E i = Inr (Some e) \<Longrightarrow> Title e = []"
  by (auto simp: entry_of_item_def Let_def get_default_def first_elem_def split: if_splits sum.splits list.splits)

section \<open>Facts about a run and the file it leaves\<close>


lemma csv_text_header: "csv_writerow h = csv_text [h]"
  by (simp add: csv_text_def)

lemma csv_text_more [simp]: "csv_text (h # rows) @ csv_text new = csv_text (h # rows @ new)"
  by (simp add: csv_text_def)

lemma fits_fieldnames [simp]: "fits CSV_FILE_fieldnames" "fits OUTPUT_FILE_fieldnames"
  by (simp_all add: fits_def CSV_FILE_fieldnames_def OUTPUT_FILE_fieldnames_def
      field_size_limit_def)

lemma takeWhile_all: "list_all P xs \<Longrightarrow> takeWhile P xs = xs"
  by (induction xs) auto

lemma reader_written:
  "fst (csv_reader (csv_text recs)) = takeWhile fits recs"
  "snd (csv_reader (csv_text recs)) = None \<longleftrightarrow> list_all fits recs"
  by (simp_all add: csv_reader_csv_text)

lemma reader_written_fits:
  "list_all fits recs \<Longrightarrow> csv_reader (csv_text recs) = (recs, None)"
  by (simp add: csv_reader_csv_text takeWhile_all)


lemma recorded_in_has_key:
  "key \<in> set h \<Longrightarrow> None \<notin> set (recorded_in key (h # rs))"
  using dict_reader_has_key [of key h rs] by (auto simp: recorded_in_def)

lemma add_dois_recorded:
  assumes "key \<in> set h"
  shows "add_dois key (dict_reader (h # rs)) {} = Inr {v. Some v \<in> set (recorded_in key (h # rs))}"
proof -
  have all: "\<forall>row \<in> set (dict_reader (h # rs)). row key \<noteq> None"
    using dict_reader_has_key [OF assms] .
  have "(\<lambda>row. the (row key)) ` set (dict_reader (h # rs))
          = {v. Some v \<in> (\<lambda>d. d key) ` set (dict_reader (h # rs))}"
    using all by force
  then show ?thesis
    using add_dois_total [OF all, of "{}"] by (simp add: recorded_in_def)
qed

lemma read_dois_written:
  assumes "key \<in> set h" and "fits h"
  shows "read_dois key (csv_text (h # rows))
           = (if list_all fits rows then Inr {v. Some v \<in> set (recorded_in key (h # rows))}
              else Inl CsvError)"
proof (cases "list_all fits rows")
  case True
  then have "csv_reader (csv_text (h # rows)) = (h # rows, None)"
    using assms(2) by (intro reader_written_fits) simp
  then show ?thesis
    using True add_dois_recorded [OF assms(1), of rows] by (simp add: read_dois_def)
next
  case False
  then have "csv_reader (csv_text (h # rows)) = (h # takeWhile fits rows, Some CsvError)"
    using assms(2) by (simp add: csv_reader_csv_text)
  then show ?thesis
    using False add_dois_recorded [OF assms(1), of "takeWhile fits rows"]
    by (simp add: read_dois_def)
qed

text \<open>
  A store the script has written: none yet (then \<open>rows\<close> is empty), or the header row
  and rows, each as \<^verbatim>\<open>writerow\<close> writes it.
\<close>

lemma written_base:
  assumes "csv = None \<and> rows = [] \<or> csv = Some (csv_text (h # rows))"
  shows "(case csv of None \<Rightarrow> csv_writerow h | Some text \<Rightarrow> text) = csv_text (h # rows)"
  using assms by (auto simp: csv_text_header)

lemma written_existing:
  assumes "csv = None \<and> rows = [] \<or> csv = Some (csv_text (h # rows))"
    and "key \<in> set h" and "fits h"
  shows "(case csv of None \<Rightarrow> Inr {} | Some text \<Rightarrow> read_dois key text)
           = (if list_all fits rows then Inr {v. Some v \<in> set (recorded_in key (h # rows))}
              else Inl CsvError)"
  using assms(1)
proof
  assume "csv = None \<and> rows = []"
  then show ?thesis by (simp add: recorded_in_def dict_reader_def)
next
  assume "csv = Some (csv_text (h # rows))"
  then show ?thesis
    using read_dois_written [OF assms(2,3), of rows] by (simp)
qed



subsection \<open>angew\_scaper.py\<close>


lemma doi_in_CSV_FILE_fieldnames: "''doi'' \<in> set CSV_FILE_fieldnames"
  by (simp add: CSV_FILE_fieldnames_def)





subsection \<open>angew\_scraper.py\<close>









subsection \<open>What a run appends\<close>





subsection \<open>Distinct identifiers\<close>










subsection \<open>The rows of the new records\<close>

lemma enrich_abstract:
  "abstract (enrich w p) \<noteq> None \<and> abstract (enrich w p) \<noteq> Some []
   \<and> (abstract p = None \<and> get_abstract_from_europepmc w (doi p) = None
        \<longrightarrow> abstract (enrich w p) = Some ''Abstract not available'')
   \<and> (abstract p = None \<and> get_abstract_from_europepmc w (doi p) = Some []
        \<longrightarrow> abstract (enrich w p) = Some ''Abstract not available'')"
  by (auto simp: enrich_def py_or_def split: option.splits)

section \<open>Facts for a concrete run\<close>

lemma csv_text_begin: "csv_writerow h @ csv_text rows = csv_text (h # rows)"
  by (simp add: csv_text_def)

lemma csv_reader_empty: "csv_reader [] = ([], None)"
  by (simp add: csv_reader_def parse_reset_def)

lemma read_dois_empty: "read_dois key [] = Inr {}"
  by (simp add: read_dois_def csv_reader_empty dict_reader_def)

lemma read_dois_text:
  "read_dois key (csv_text recs)
     = (case add_dois key (dict_reader (takeWhile fits recs)) {} of
          Inl e \<Rightarrow> Inl e
        | Inr dois \<Rightarrow> if list_all fits recs then Inr dois else Inl CsvError)"
  by (simp add: read_dois_def csv_reader_csv_text split: sum.splits)

lemma recorded_None: "recorded key None = []"
  by (simp add: recorded_def)

lemma recorded_text:
  "recorded key (Some (csv_text recs)) = recorded_in key (takeWhile fits recs)"
  by (simp add: recorded_def reader_written)

text \<open>The definitions a concrete run unfolds.\<close>

lemmas eval_defs =
  scaper_main_def find_open_access_angew_papers_from_def main_def get_crossref_data_def
  load_existing_dois_def save_results_to_csv_def
  fixed_world_def page_def epmc_found_def is_error_status_def get_default_def first_elem_def
  item_abc_def item_xyz_def item_no_doi_def item_no_title_def item_empty_title_def
  paper_of_item_def entry_of_item_def enrich_def get_abstract_from_europepmc_def
  europepmc_try_def py_or_def paper_row_def entry_row_def append_to_csv_def
  cell_of_int_def cell_of_str_def str_int_def str_nat.simps py_replace.simps py_strip_def
  py_isspace_def pub_date_of_def truthy_parts_def Let_def
  dict_reader_def row_dict_def CSV_FILE_fieldnames_def OUTPUT_FILE_fieldnames_def
  recorded_in_def page_dois_def added_def existing_dois_def
  csv_text_begin read_dois_empty read_dois_text recorded_None recorded_text fits_def field_size_limit_def



section \<open>Properties of the pipeline\<close>

subsection \<open>Idempotence of a run\<close>




subsection \<open>Append only\<close>




subsection \<open>Uniqueness of the identifiers\<close>




subsection \<open>Items without an identifier\<close>

text \<open>
  C4. The claim is that an item without an identifier is never persisted.
  \<^verbatim>\<open>main\<close> of angew\_scraper.py skips such an item (\<^verbatim>\<open>if not doi\<close>);
  \<^verbatim>\<open>save_results_to_csv\<close> of angew\_scaper.py has no such test, and on a new file
  appends a row whose identifier cell is empty.
\<close>

theorem missing_doi_is_persisted_by_scaper:
  "raw_DOI item_no_doi = None
   \<and> scaper_main (fixed_world (page [item_no_doi]) ConnectionFailed) None
       = (Some (csv_text [CSV_FILE_fieldnames,
                [''A title'', ''2024'', [], ''https://doi.org/10.1/abc'',
                 ''https://cc/by'', ''Abstract not available'', ''2025-08-01 12:00'']]),
          Inr 1)
   \<and> main (fixed_world (page [item_no_doi]) ConnectionFailed) None = (None, Inr 0)"
  by (simp add: eval_defs)

subsection \<open>The fallback sentinel\<close>

text \<open>
  C5 (amended). In a run of angew\_scaper.py, let the new records be the papers of the
  page whose identifier is not among those read from the file, in the order of the page.
  When there is one at least, the run appends to the file one row for each of them, in
  that order, and reports their number; the row of a new record holds its identifier, its
  abstract cell is never empty, and it is "Abstract not available" when the record has no
  abstract from Crossref and the Europe PMC lookup gives \<^verbatim>\<open>None\<close>. When the file did
  not exist or was the header row followed by rows as \<^verbatim>\<open>writerow\<close> writes them, and
  the cells of the new rows fit the field size limit, the reader finds these rows after
  the rows the file had. \<^verbatim>\<open>main\<close> of angew\_scraper.py makes no lookup and has no
  sentinel: an item without an abstract is persisted with the empty abstract.
\<close>

theorem fallback_sentinel_in_scaper:
  "(find_open_access_angew_papers_from w START_DATE 50 = Inr papers
      \<and> existing_dois ''doi'' csv = Inr E
      \<and> new = filter (\<lambda>p. Some (doi p) \<notin> E) papers \<and> new \<noteq> []
    \<longrightarrow> (\<exists>rows after.
           scaper_main w csv = (Some after, Inr (length new))
           \<and> after = (case csv of None \<Rightarrow> csv_writerow CSV_FILE_fieldnames | Some text \<Rightarrow> text)
                       @ csv_text rows
           \<and> length rows = length new
           \<and> (\<forall>j < length new.
                 rows ! j = paper_row (enrich w (new ! j)) (now w j)
                 \<and> rows ! j ! 2 = doi (new ! j)
                 \<and> rows ! j ! 5 \<noteq> []
                 \<and> (abstract (new ! j) = None
                      \<and> get_abstract_from_europepmc w (doi (new ! j)) = None
                    \<longrightarrow> rows ! j ! 5 = ''Abstract not available''))
           \<and> ((csv = None \<and> old = [] \<or> csv = Some (csv_text (CSV_FILE_fieldnames # old)))
                \<and> list_all fits rows
              \<longrightarrow> csv_reader after = (CSV_FILE_fieldnames # old @ rows, None))))
   \<and> (entry_of_item E' i = Inr (Some e) \<and> raw_abstract i = None \<longrightarrow> Abstract e = [])"
proof (intro conjI impI)
  assume a: "find_open_access_angew_papers_from w START_DATE 50 = Inr papers
      \<and> existing_dois ''doi'' csv = Inr E
      \<and> new = filter (\<lambda>p. Some (doi p) \<notin> E) papers \<and> new \<noteq> []"
  let ?base = "case csv of None \<Rightarrow> csv_writerow CSV_FILE_fieldnames | Some text \<Rightarrow> text"
  let ?rows = "write_papers w 0 (map (enrich w) new)"
  from a have f: "find_open_access_angew_papers_from w START_DATE 50 = Inr papers"
    and E: "existing_dois ''doi'' csv = Inr E"
    and new: "filter (\<lambda>p. Some (doi p) \<notin> E) papers = new" and ne: "new \<noteq> []"
    by blast+
  have run: "scaper_main w csv = (Some (?base @ csv_text ?rows), Inr (length new))"
    using f E ne
    by (simp add: scaper_main_def save_results_to_csv_def existing_dois_def [symmetric] new)
  have len: "length ?rows = length new"
    by (simp add: length_write_papers)
  have row: "?rows ! j = paper_row (enrich w (new ! j)) (now w j)" if "j < length new" for j
    using that by (simp add: write_papers_nth)
  have cells: "?rows ! j ! 2 = doi (new ! j)
      \<and> ?rows ! j ! 5 \<noteq> []
      \<and> (abstract (new ! j) = None \<and> get_abstract_from_europepmc w (doi (new ! j)) = None
           \<longrightarrow> ?rows ! j ! 5 = ''Abstract not available'')" if "j < length new" for j
  proof -
    have cell: "?rows ! j ! 5 = cell_of_str (abstract (enrich w (new ! j)))"
      and id: "?rows ! j ! 2 = doi (new ! j)"
      unfolding row [OF that] by (simp_all add: paper_row_def doi_enrich)
    have "?rows ! j ! 5 \<noteq> []"
      unfolding cell using enrich_abstract [of w "new ! j"]
      by (cases "abstract (enrich w (new ! j))") (auto simp: cell_of_str_def)
    moreover have "abstract (new ! j) = None
        \<and> get_abstract_from_europepmc w (doi (new ! j)) = None
        \<longrightarrow> ?rows ! j ! 5 = ''Abstract not available''"
      unfolding cell using enrich_abstract [of w "new ! j"] by (simp add: cell_of_str_def)
    ultimately show ?thesis
      using id by blast
  qed
  have readback: "csv_reader (?base @ csv_text ?rows) = (CSV_FILE_fieldnames # old @ ?rows, None)"
    if st: "csv = None \<and> old = [] \<or> csv = Some (csv_text (CSV_FILE_fieldnames # old))"
      and fit: "list_all fits ?rows"
  proof -
    have "list_all fits old"
      using written_existing [OF st doi_in_CSV_FILE_fieldnames fits_fieldnames(1)] E
      by (auto simp: existing_dois_def split: if_splits)
    then have "list_all fits (CSV_FILE_fieldnames # old @ ?rows)"
      using fit by simp
    then show ?thesis
      unfolding written_base [OF st] csv_text_more by (rule reader_written_fits)
  qed
  show "\<exists>rows after.
           scaper_main w csv = (Some after, Inr (length new))
           \<and> after = ?base @ csv_text rows
           \<and> length rows = length new
           \<and> (\<forall>j < length new.
                 rows ! j = paper_row (enrich w (new ! j)) (now w j)
                 \<and> rows ! j ! 2 = doi (new ! j)
                 \<and> rows ! j ! 5 \<noteq> []
                 \<and> (abstract (new ! j) = None
                      \<and> get_abstract_from_europepmc w (doi (new ! j)) = None
                    \<longrightarrow> rows ! j ! 5 = ''Abstract not available''))
           \<and> ((csv = None \<and> old = [] \<or> csv = Some (csv_text (CSV_FILE_fieldnames # old)))
                \<and> list_all fits rows
              \<longrightarrow> csv_reader after = (CSV_FILE_fieldnames # old @ rows, None))"
    using run len row cells readback
    by (intro exI [of _ ?rows] exI [of _ "?base @ csv_text ?rows"]) blast
next
  assume "entry_of_item E' i = Inr (Some e) \<and> raw_abstract i = None"
  then have e: "entry_of_item E' i = Inr (Some e)" and a: "raw_abstract i = None" by simp_all
  have "py_strip (py_replace ''</jats:p>'' [] (py_replace ''<jats:p>'' [] [])) = []"
    by (simp add: py_replace.simps py_strip_def)
  then show "Abstract e = []"
    using e a by (auto simp: entry_of_item_def Let_def get_default_def split: if_splits sum.splits)
qed

theorem fallback_sentinel_in_scaper_witness:
  "find_open_access_angew_papers_from
       (fixed_world (page [item_abc, item_xyz]) ConnectionFailed) START_DATE 50
     = Inr [\<lparr>title = ''A title'', doi = ''10.1/abc'', url = ''https://doi.org/10.1/abc'',
             license = ''https://cc/by'', year = Some 2024, abstract = None\<rparr>,
            \<lparr>title = ''A title'', doi = ''10.1/xyz'', url = ''https://doi.org/10.1/abc'',
             license = ''https://cc/by'', year = Some 2024,
             abstract = Some ''<jats:p>Text.</jats:p>''\<rparr>]
   \<and> existing_dois ''doi'' (Some (csv_text [CSV_FILE_fieldnames,
         [''Old'', ''2023'', ''10.1/xyz'', [], [], ''Old abstract'', ''2025-07-01 09:00'']]))
     = Inr {Some ''10.1/xyz''}
   \<and> get_abstract_from_europepmc
        (fixed_world (page [item_abc, item_xyz]) ConnectionFailed) ''10.1/abc'' = None
   \<and> scaper_main (fixed_world (page [item_abc, item_xyz]) ConnectionFailed)
        (Some (csv_text [CSV_FILE_fieldnames,
           [''Old'', ''2023'', ''10.1/xyz'', [], [], ''Old abstract'', ''2025-07-01 09:00'']]))
     = (Some (csv_text [CSV_FILE_fieldnames,
           [''Old'', ''2023'', ''10.1/xyz'', [], [], ''Old abstract'', ''2025-07-01 09:00'']]
          @ csv_text [[''A title'', ''2024'', ''10.1/abc'', ''https://doi.org/10.1/abc'',
             ''https://cc/by'', ''Abstract not available'', ''2025-08-01 12:00'']]), Inr 1)
   \<and> csv_reader (csv_text [CSV_FILE_fieldnames,
           [''Old'', ''2023'', ''10.1/xyz'', [], [], ''Old abstract'', ''2025-07-01 09:00'']]
          @ csv_text [[''A title'', ''2024'', ''10.1/abc'', ''https://doi.org/10.1/abc'',
             ''https://cc/by'', ''Abstract not available'', ''2025-08-01 12:00'']])
     = ([CSV_FILE_fieldnames,
         [''Old'', ''2023'', ''10.1/xyz'', [], [], ''Old abstract'', ''2025-07-01 09:00''],
         [''A title'', ''2024'', ''10.1/abc'', ''https://doi.org/10.1/abc'',
          ''https://cc/by'', ''Abstract not available'', ''2025-08-01 12:00'']], None)"
proof -
  let ?w = "fixed_world (page [item_abc, item_xyz]) ConnectionFailed"
  let ?old = "[''Old'', ''2023'', ''10.1/xyz'', [], [], ''Old abstract'', ''2025-07-01 09:00'']"
  let ?abc = "\<lparr>title = ''A title'', doi = ''10.1/abc'', url = ''https://doi.org/10.1/abc'',
             license = ''https://cc/by'', year = Some 2024, abstract = None\<rparr>"
  let ?xyz = "\<lparr>title = ''A title'', doi = ''10.1/xyz'', url = ''https://doi.org/10.1/abc'',
             license = ''https://cc/by'', year = Some 2024,
             abstract = Some ''<jats:p>Text.</jats:p>''\<rparr>"
  let ?row = "[''A title'', ''2024'', ''10.1/abc'', ''https://doi.org/10.1/abc'',
             ''https://cc/by'', ''Abstract not available'', ''2025-08-01 12:00'']"
  have f: "find_open_access_angew_papers_from ?w START_DATE 50 = Inr [?abc, ?xyz]"
    by (simp add: eval_defs)
  have E: "existing_dois ''doi'' (Some (csv_text [CSV_FILE_fieldnames, ?old]))
      = Inr {Some ''10.1/xyz''}"
    by (simp add: eval_defs)
  have l: "get_abstract_from_europepmc ?w ''10.1/abc'' = None"
    by (simp add: eval_defs)
  have new: "[?abc] = filter (\<lambda>p. Some (doi p) \<notin> {Some ''10.1/xyz''}) [?abc, ?xyz]"
    by simp
  have hyp: "find_open_access_angew_papers_from ?w START_DATE 50 = Inr [?abc, ?xyz]
      \<and> existing_dois ''doi'' (Some (csv_text [CSV_FILE_fieldnames, ?old])) = Inr {Some ''10.1/xyz''}
      \<and> [?abc] = filter (\<lambda>p. Some (doi p) \<notin> {Some ''10.1/xyz''}) [?abc, ?xyz]
      \<and> [?abc] \<noteq> []"
    using f E new by blast
  from mp [OF conjunct1 [OF fallback_sentinel_in_scaper
    [of ?w "[?abc, ?xyz]" "Some (csv_text [CSV_FILE_fieldnames, ?old])" "{Some ''10.1/xyz''}"
      "[?abc]" "[?old]"]] hyp]
  obtain rows after where
    run: "scaper_main ?w (Some (csv_text [CSV_FILE_fieldnames, ?old]))
        = (Some after, Inr (length [?abc]))"
    and after: "after = (case Some (csv_text [CSV_FILE_fieldnames, ?old]) of
          None \<Rightarrow> csv_writerow CSV_FILE_fieldnames | Some text \<Rightarrow> text) @ csv_text rows"
    and len: "length rows = length [?abc]"
    and each: "\<forall>j < length [?abc].
        rows ! j = paper_row (enrich ?w ([?abc] ! j)) (now ?w j)
        \<and> rows ! j ! 2 = doi ([?abc] ! j)
        \<and> rows ! j ! 5 \<noteq> []
        \<and> (abstract ([?abc] ! j) = None
             \<and> get_abstract_from_europepmc ?w (doi ([?abc] ! j)) = None
           \<longrightarrow> rows ! j ! 5 = ''Abstract not available'')"
    and readback: "(Some (csv_text [CSV_FILE_fieldnames, ?old]) = None \<and> [?old] = []
          \<or> Some (csv_text [CSV_FILE_fieldnames, ?old])
              = Some (csv_text (CSV_FILE_fieldnames # [?old])))
          \<and> list_all fits rows
        \<longrightarrow> csv_reader after = (CSV_FILE_fieldnames # [?old] @ rows, None)"
    by (elim exE conjE)
  have row: "rows ! 0 = paper_row (enrich ?w ?abc) (now ?w 0)"
    using each by simp
  have len1: "length rows = 1"
    using len by simp
  have "rows = [rows ! 0]"
    using len1 by (cases rows) simp_all
  moreover have "paper_row (enrich ?w ?abc) (now ?w 0) = ?row"
    by (simp add: eval_defs)
  ultimately have rows: "rows = [?row]"
    using row by simp
  have fit: "list_all fits rows"
    unfolding rows by (simp add: fits_def field_size_limit_def)
  have whole: "after = csv_text [CSV_FILE_fieldnames, ?old] @ csv_text [?row]"
    using after unfolding rows by simp
  have "csv_reader after = ([CSV_FILE_fieldnames, ?old, ?row], None)"
    using readback fit unfolding rows by simp
  then have r: "csv_reader (csv_text [CSV_FILE_fieldnames, ?old] @ csv_text [?row])
      = ([CSV_FILE_fieldnames, ?old, ?row], None)"
    unfolding whole .
  have "scaper_main ?w (Some (csv_text [CSV_FILE_fieldnames, ?old]))
      = (Some (csv_text [CSV_FILE_fieldnames, ?old] @ csv_text [?row]), Inr 1)"
    using run unfolding whole by simp
  then show ?thesis
    using f E l r by blast
qed

theorem main_persists_empty_abstract:
  "raw_abstract item_abc = None
   \<and> get_abstract_from_europepmc (fixed_world (page [item_abc]) ConnectionFailed) ''10.1/abc'' = None
   \<and> main (fixed_world (page [item_abc]) ConnectionFailed) None
       = (Some (csv_text [OUTPUT_FILE_fieldnames,
                [''A title'', ''Stokes'', ''10.1/abc'', ''https://doi.org/10.1/abc'', ''2024-7'', []]]),
          Inr 1)"
  by (simp add: eval_defs)

subsection \<open>Date normalization\<close>

text \<open>
  C6 (amended). In \<^verbatim>\<open>main\<close> of angew\_scraper.py the first list of date parts is
  joined with "-", the parts that are \<^verbatim>\<open>null\<close> (or 0) left out: [2024] gives "2024",
  [2024, 7] gives "2024-7" and [2024, 7, 15] gives "2024-7-15".
  \<^verbatim>\<open>find_open_access_angew_papers_from\<close> of angew\_scaper.py keeps the first part
  only, the year, and the row holds \<^verbatim>\<open>str\<close> of it.
\<close>

theorem date_parts_joined_in_main:
  "pub_date_of [Some 2024] = ''2024''
   \<and> pub_date_of [Some 2024, Some 7] = ''2024-7''
   \<and> pub_date_of [Some 2024, Some 7, Some 15] = ''2024-7-15''
   \<and> pub_date_of (xs @ None # ys) = pub_date_of (xs @ ys)
   \<and> (entry_of_item E i = Inr (Some e)
        \<and> raw_issued i = Some \<lparr>date_parts = Some (parts # others)\<rparr>
      \<longrightarrow> Date e = py_join ''-'' (map str_int (truthy_parts parts)))
   \<and> (paper_of_item i = Inr p
        \<and> raw_issued i = Some \<lparr>date_parts = Some ((y # rest) # others)\<rparr>
      \<longrightarrow> year p = y \<and> paper_row p t ! 1 = cell_of_int y)"
proof -
  have "pub_date_of (xs @ None # ys) = pub_date_of (xs @ ys)"
    by (simp add: pub_date_of_def truthy_parts_None)
  moreover have "Date e = py_join ''-'' (map str_int (truthy_parts parts))"
    if "entry_of_item E i = Inr (Some e)"
      and "raw_issued i = Some \<lparr>date_parts = Some (parts # others)\<rparr>"
    using entry_Date [OF that] by (simp add: pub_date_of_def)
  moreover have "year p = y \<and> paper_row p t ! 1 = cell_of_int y"
    if "paper_of_item i = Inr p"
      and "raw_issued i = Some \<lparr>date_parts = Some ((y # rest) # others)\<rparr>"
    using paper_year [OF that] by (simp add: paper_row_def)
  ultimately show ?thesis
    using pub_date_examples by blast
qed

theorem date_parts_joined_in_main_witness:
  "entry_of_item {} item_abc
     = Inr (Some \<lparr>Title = ''A title'', Authors = ''Stokes'', DOI = ''10.1/abc'',
                  URL = ''https://doi.org/10.1/abc'', Date = ''2024-7'', Abstract = []\<rparr>)
   \<and> raw_issued item_abc = Some \<lparr>date_parts = Some [[Some 2024, Some 7]]\<rparr>
   \<and> Date \<lparr>Title = ''A title'', Authors = ''Stokes'', DOI = ''10.1/abc'',
            URL = ''https://doi.org/10.1/abc'', Date = ''2024-7'', Abstract = []\<rparr>
       = py_join ''-'' (map str_int (truthy_parts [Some 2024, Some 7]))"
proof -
  have run: "entry_of_item {} item_abc
     = Inr (Some \<lparr>Title = ''A title'', Authors = ''Stokes'', DOI = ''10.1/abc'',
                  URL = ''https://doi.org/10.1/abc'', Date = ''2024-7'', Abstract = []\<rparr>)"
    by (simp add: entry_of_item_def item_abc_def get_default_def first_elem_def Let_def
        pub_date_of_def truthy_parts_def str_int_def str_nat.simps py_replace.simps py_strip_def)
  have parts: "raw_issued item_abc = Some \<lparr>date_parts = Some ([Some 2024, Some 7] # [])\<rparr>"
    by (simp add: item_abc_def)
  show ?thesis
    using run parts
      date_parts_joined_in_main [of "[]" "[]" "{}" item_abc
        "\<lparr>Title = ''A title'', Authors = ''Stokes'', DOI = ''10.1/abc'',
          URL = ''https://doi.org/10.1/abc'', Date = ''2024-7'', Abstract = []\<rparr>"
        "[Some 2024, Some 7]" "[]"]
    by blast
qed

theorem date_parts_year_only_in_scaper:
  "raw_issued item_abc = Some \<lparr>date_parts = Some [[Some 2024, Some 7]]\<rparr>
   \<and> fst (scaper_main (fixed_world (page [item_abc]) ConnectionFailed) None)
       = Some (csv_text [CSV_FILE_fieldnames,
               [''A title'', ''2024'', ''10.1/abc'', ''https://doi.org/10.1/abc'',
                ''https://cc/by'', ''Abstract not available'', ''2025-08-01 12:00'']])"
  by (simp add: scaper_main_def find_open_access_angew_papers_from_def fixed_world_def page_def
      is_error_status_def get_default_def item_abc_def paper_of_item_def first_elem_def
      save_results_to_csv_def enrich_def get_abstract_from_europepmc_def europepmc_try_def
      py_or_def paper_row_def cell_of_int_def cell_of_str_def str_int_def str_nat.simps
      py_replace.simps py_strip_def Let_def csv_text_begin)

subsection \<open>The enrichment lookup\<close>

text \<open>
  C7. \<^verbatim>\<open>get_abstract_from_europepmc\<close> returns the stripped abstract text of the first
  result, or \<^verbatim>\<open>None\<close>. A network failure, an error status, a body that is not JSON, an
  empty or missing result list, and any exception raised inside the \<^verbatim>\<open>try\<close> give
  \<^verbatim>\<open>None\<close>. What Europe PMC answers never decides whether a run of angew\_scaper.py
  ends with an error, nor the number of rows it reports.
\<close>

theorem enrichment_lookup_absorbs_errors:
  "(get_abstract_from_europepmc w d = None \<or>
    (\<exists>st data r rs a.
       europepmc_get w [(''query'', ''DOI:'' @ d), (''format'', ''json'')] = Response st (Some data)
       \<and> get_default (result (get_default (resultList data) \<lparr>result = None\<rparr>)) [] = r # rs
       \<and> abstractText r = Some a
       \<and> get_abstract_from_europepmc w d = Some (py_strip a)))
   \<and> (europepmc_get w [(''query'', ''DOI:'' @ d), (''format'', ''json'')] = ConnectionFailed
      \<longrightarrow> get_abstract_from_europepmc w d = None)
   \<and> (europepmc_get w [(''query'', ''DOI:'' @ d), (''format'', ''json'')] = Response code body
        \<and> 400 \<le> code \<and> code < 600
      \<longrightarrow> get_abstract_from_europepmc w d = None)
   \<and> (europepmc_get w [(''query'', ''DOI:'' @ d), (''format'', ''json'')] = Response code None
      \<longrightarrow> get_abstract_from_europepmc w d = None)
   \<and> (europepmc_get w [(''query'', ''DOI:'' @ d), (''format'', ''json'')] = Response code (Some answer)
        \<and> get_default (result (get_default (resultList answer) \<lparr>result = None\<rparr>)) [] = []
      \<longrightarrow> get_abstract_from_europepmc w d = None)
   \<and> (europepmc_try w d = Inl e \<longrightarrow> get_abstract_from_europepmc w d = None)
   \<and> snd (scaper_main (w\<lparr>europepmc_get := g\<rparr>) csv) = snd (scaper_main w csv)"
  using europepmc_cases [of w d] europepmc_errors [of w d code body answer e]
    scaper_result_indep [where w = w and g = g and csv = csv]
  by blast

theorem enrichment_lookup_absorbs_errors_witness:
  "get_abstract_from_europepmc (fixed_world (page []) ConnectionFailed) ''10.1/abc'' = None
   \<and> get_abstract_from_europepmc (fixed_world (page []) (Response 503 None)) ''10.1/abc'' = None
   \<and> get_abstract_from_europepmc (fixed_world (page []) (Response 200 None)) ''10.1/abc'' = None
   \<and> get_abstract_from_europepmc (fixed_world (page []) (epmc_found ''  Example abstract. ''))
         ''10.1/abc'' = Some ''Example abstract.''"
proof -
  have found: "get_abstract_from_europepmc (fixed_world (page []) (epmc_found ''  Example abstract. ''))
         ''10.1/abc'' = Some ''Example abstract.''"
    by (simp add: get_abstract_from_europepmc_def europepmc_try_def fixed_world_def epmc_found_def
        is_error_status_def get_default_def py_strip_def py_isspace_def)
  show ?thesis
    using found
      enrichment_lookup_absorbs_errors
        [of "fixed_world (page []) ConnectionFailed" "''10.1/abc''"]
      enrichment_lookup_absorbs_errors
        [of "fixed_world (page []) (Response 503 None)" "''10.1/abc''" 503 None]
      enrichment_lookup_absorbs_errors
        [of "fixed_world (page []) (Response 200 None)" "''10.1/abc''" 200]
    by (simp add: fixed_world_def)
qed

subsection \<open>Failure of the primary fetch\<close>

text \<open>
  C8. When the request to Crossref fails on the network, or is answered with a status
  from 400 to 599, a run of either script ends with that error and the file is what it
  was before the run, whatever the file and whatever Europe PMC would answer.
\<close>

theorem fetch_failure_leaves_store:
  "(crossref_get w (scaper_params START_DATE 50) = ConnectionFailed
      \<longrightarrow> scaper_main w csv = (csv, Inl RequestException))
   \<and> (crossref_get w (scaper_params START_DATE 50) = Response code body
        \<and> 400 \<le> code \<and> code < 600
      \<longrightarrow> scaper_main w csv = (csv, Inl (HTTPError code)))
   \<and> (crossref_get w (scraper_params ''2024-07-01'') = ConnectionFailed
      \<longrightarrow> main w csv = (csv, Inl RequestException))
   \<and> (crossref_get w (scraper_params ''2024-07-01'') = Response code body
        \<and> 400 \<le> code \<and> code < 600
      \<longrightarrow> main w csv = (csv, Inl (HTTPError code)))"
  by (simp add: scaper_main_def find_open_access_angew_papers_from_def main_def
      get_crossref_data_def is_error_status_def)

theorem fetch_failure_leaves_store_witness:
  "scaper_main (fixed_world ConnectionFailed (epmc_found ''Text.''))
       (Some (csv_text [CSV_FILE_fieldnames]))
       = (Some (csv_text [CSV_FILE_fieldnames]), Inl RequestException)
   \<and> scaper_main (fixed_world (Response 503 None) (epmc_found ''Text.'')) None
       = (None, Inl (HTTPError 503))
   \<and> main (fixed_world ConnectionFailed (epmc_found ''Text.''))
       (Some (csv_text [OUTPUT_FILE_fieldnames]))
       = (Some (csv_text [OUTPUT_FILE_fieldnames]), Inl RequestException)
   \<and> main (fixed_world (Response 404 None) (epmc_found ''Text.'')) None
       = (None, Inl (HTTPError 404))"
  using
    fetch_failure_leaves_store
      [of "fixed_world ConnectionFailed (epmc_found ''Text.'')" "Some (csv_text [CSV_FILE_fieldnames])"]
    fetch_failure_leaves_store
      [of "fixed_world (Response 503 None) (epmc_found ''Text.'')" None 503 None]
    fetch_failure_leaves_store
      [of "fixed_world ConnectionFailed (epmc_found ''Text.'')" "Some (csv_text [OUTPUT_FILE_fieldnames])"]
    fetch_failure_leaves_store
      [of "fixed_world (Response 404 None) (epmc_found ''Text.'')" None 404 None]
  by (simp add: fixed_world_def)

subsection \<open>Title placeholder\<close>

text \<open>
  C9 (amended). For an item without a title, \<^verbatim>\<open>find_open_access_angew_papers_from\<close>
  of angew\_scaper.py gives the title "No title"; \<^verbatim>\<open>main\<close> of angew\_scraper.py
  joins the empty default list and gives the empty title.
\<close>

theorem title_placeholder_in_scaper:
  "(raw_title i = None \<and> paper_of_item i = Inr p \<longrightarrow> title p = ''No title'')
   \<and> (raw_title i = None \<and> entry_of_item E i = Inr (Some e) \<longrightarrow> Title e = [])"
  using paper_title_absent entry_title_absent by blast

theorem title_placeholder_in_scaper_witness:
  "raw_title item_no_title = None
   \<and> paper_of_item item_no_title
       = Inr \<lparr>title = ''No title'', doi = ''10.1/abc'', url = ''https://doi.org/10.1/abc'',
              license = ''https://cc/by'', year = Some 2024, abstract = None\<rparr>
   \<and> title \<lparr>title = ''No title'', doi = ''10.1/abc'', url = ''https://doi.org/10.1/abc'',
             license = ''https://cc/by'', year = Some 2024, abstract = None\<rparr> = ''No title''"
proof -
  have absent: "raw_title item_no_title = None"
    by (simp add: item_no_title_def)
  have run: "paper_of_item item_no_title
       = Inr \<lparr>title = ''No title'', doi = ''10.1/abc'', url = ''https://doi.org/10.1/abc'',
              license = ''https://cc/by'', year = Some 2024, abstract = None\<rparr>"
    by (simp add: paper_of_item_def item_no_title_def item_abc_def get_default_def first_elem_def
        py_replace.simps py_strip_def)
  show ?thesis
    using absent run
      title_placeholder_in_scaper [of item_no_title
        "\<lparr>title = ''No title'', doi = ''10.1/abc'', url = ''https://doi.org/10.1/abc'',
          license = ''https://cc/by'', year = Some 2024, abstract = None\<rparr>"]
    by blast
qed

theorem title_empty_in_main:
  "raw_title item_no_title = None
   \<and> fst (main (fixed_world (page [item_no_title]) ConnectionFailed) None)
       = Some (csv_text [OUTPUT_FILE_fieldnames,
               [[], ''Stokes'', ''10.1/abc'', ''https://doi.org/10.1/abc'', ''2024-7'', []]])"
  by (simp add: main_def get_crossref_data_def fixed_world_def page_def is_error_status_def
      get_default_def item_no_title_def item_abc_def load_existing_dois_def entry_of_item_def
      first_elem_def pub_date_of_def truthy_parts_def str_int_def str_nat.simps py_replace.simps
      py_strip_def append_to_csv_def entry_row_def Let_def csv_text_begin)

subsection \<open>Totality of the normalization in angew\_scaper.py\<close>

text \<open>
  C10. The claim is that \<^verbatim>\<open>find_open_access_angew_papers_from\<close> never raises, also
  for an item whose title is the empty list. On such an item the
  \<^verbatim>\<open>item.get("title", ["No title"])[0]\<close> of the source raises IndexError, and the run
  ends with it: the default covers the missing key only.
\<close>

theorem empty_title_list_raises:
  "raw_title item_empty_title = Some []
   \<and> find_open_access_angew_papers_from
         (fixed_world (page [item_empty_title]) ConnectionFailed) START_DATE 50 = Inl IndexError
   \<and> scaper_main (fixed_world (page [item_empty_title]) ConnectionFailed) None
       = (None, Inl IndexError)"
  by (simp add: scaper_main_def find_open_access_angew_papers_from_def fixed_world_def page_def
      is_error_status_def get_default_def item_empty_title_def item_abc_def paper_of_item_def
      first_elem_def)

end
